theory Spec2Isabelle
  imports Complex_Main "HOL-Library.Word"
begin

unbundle bit_operations_syntax

section \<open>Frames of the tunnel protocol\<close>

text \<open>
  The agent exchanges values of \<^verbatim>\<open>v1.Frame\<close> with the core server. The type lives in the
  protocol package, which is a dependency and not part of this repository; the agent only
  builds frames field by field and asks \<^verbatim>\<open>IsControlFrame\<close>, \<^verbatim>\<open>IsAck\<close> and
  \<^verbatim>\<open>IsEndStream\<close> of them. The frame type byte is an enumeration; a byte outside the known
  set is kept as \<open>FrameUnknown\<close>, since both handlers of the agent have a default branch.
  A payload is a Go byte slice, here a \<open>string\<close> (a list of 8-bit characters).
\<close>

datatype FrameType =
  FrameAuth | FrameHeartbeat | FrameClose | FrameOpenStream | FrameData | FrameUnknown "8 word"

record Frame =
  Version :: "8 word"
  Type :: FrameType
  Flags :: "8 word"
  StreamID :: "32 word"
  Payload :: string

text \<open>
  Modelled from the spec: the numeric values of the protocol version, of the flag bits and of
  the control stream id are declared in the protocol package, which is missing here. The spec
  gives \<open>None (0)\<close>, \<open>EndStream\<close>, \<open>Error\<close>, \<open>Ack\<close> as the flags ("a bit set"), and stream id
  \<open>0\<close> as the control stream; the flags are taken as three distinct single bits.
\<close>

definition v1_Version :: "8 word" where "v1_Version = 1"
definition FlagNone :: "8 word" where "FlagNone = 0"
definition FlagEndStream :: "8 word" where "FlagEndStream = 1"
definition FlagError :: "8 word" where "FlagError = 2"
definition FlagAck :: "8 word" where "FlagAck = 4"
definition StreamIDControl :: "32 word" where "StreamIDControl = 0"

definition IsControlFrame :: "Frame \<Rightarrow> bool" where
  "IsControlFrame f = (StreamID f = StreamIDControl)"

definition IsEndStream :: "Frame \<Rightarrow> bool" where
  "IsEndStream f = (Flags f AND FlagEndStream \<noteq> 0)"

definition IsError :: "Frame \<Rightarrow> bool" where
  "IsError f = (Flags f AND FlagError \<noteq> 0)"

definition IsAck :: "Frame \<Rightarrow> bool" where
  "IsAck f = (Flags f AND FlagAck \<noteq> 0)"

section \<open>Errors\<close>

text \<open>
  The sentinel errors of package \<^verbatim>\<open>client\<close>, the two sentinels of the Go library the code
  compares against or returns (\<^verbatim>\<open>io.EOF\<close>, \<^verbatim>\<open>context.Canceled\<close>), the errors built with
  \<^verbatim>\<open>fmt.Errorf\<close> (\<open>Errorf\<close> holds the formatted text, \<open>Errorw\<close> the text before a wrapped
  \<^verbatim>\<open>%w\<close> error), and \<open>Foreign\<close>: an error value produced outside the repository (network,
  JSON decoder, HTTP client), of which the code can observe the text and whether its cause
  reports a timeout (\<^verbatim>\<open>net.Error.Timeout()\<close>).
\<close>

datatype error =
  ErrNotConnected
  | ErrConnectionClosed
  | ErrStreamNotFound
  | ErrStreamAlreadyExists
  | ErrInvalidFrame
  | ErrAuthFailed
  | ErrLocalServiceError
  | ErrAlreadyRunning
  | EOF
  | Canceled
  | Errorf string
  | Errorw string error
  | Foreign string bool

fun error_text :: "error \<Rightarrow> string" where
  "error_text ErrNotConnected = ''not connected to server''"
| "error_text ErrConnectionClosed = ''connection closed''"
| "error_text ErrStreamNotFound = ''stream not found''"
| "error_text ErrStreamAlreadyExists = ''stream already exists''"
| "error_text ErrInvalidFrame = ''invalid frame''"
| "error_text ErrAuthFailed = ''authentication failed''"
| "error_text ErrLocalServiceError = ''local service error''"
| "error_text ErrAlreadyRunning = ''dispatcher already running''"
| "error_text EOF = ''EOF''"
| "error_text Canceled = ''context canceled''"
| "error_text (Errorf s) = s"
| "error_text (Errorw s e) = s @ error_text e"
| "error_text (Foreign s t) = s"

section \<open>Connector: the outbound queue\<close>

text \<open>
  The fields of \<^verbatim>\<open>Connector\<close> that its methods read and write. \<open>sendCh\<close> is the buffered
  channel of outbound frames, oldest first; \<^verbatim>\<open>NewConnector\<close> creates it with capacity 100.
  Durations are \<^verbatim>\<open>time.Duration\<close> values, that is nanoseconds. \<open>ctxDone\<close> says whether
  the connector's context has been cancelled.
\<close>

record Connector =
  connected :: bool
  sendCh :: "Frame list"
  maxRetries :: int
  retryInterval :: int
  backoffFactor :: rat
  maxBackoff :: int
  ctxDone :: bool

definition sendCh_cap :: nat where "sendCh_cap = 100"

definition second :: int where "second = 1000000000"

definition NewConnector :: Connector where
  "NewConnector = \<lparr>connected = False, sendCh = [], maxRetries = - 1, retryInterval = 1 * second,
     backoffFactor = 2, maxBackoff = 60 * second, ctxDone = False\<rparr>"

text \<open>
  \<^verbatim>\<open>SendFrame\<close> reads the \<open>connected\<close> flag and then selects between the send on
  \<open>sendCh\<close> and \<^verbatim>\<open>default\<close>: the send can proceed when the buffer has room, otherwise the
  default branch runs at once.
\<close>

definition SendFrame :: "Frame \<Rightarrow> Connector \<Rightarrow> error option \<times> Connector" where
  "SendFrame frame c =
     (if \<not> connected c then (Some ErrNotConnected, c)
      else if length (sendCh c) < sendCh_cap then (None, c\<lparr>sendCh := sendCh c @ [frame]\<rparr>)
      else (Some (Errorf ''send queue full''), c))"

text \<open>\<^verbatim>\<open>Disconnect\<close>, as far as the fields kept here go: the transport is no longer active.\<close>

definition Disconnect :: "Connector \<Rightarrow> Connector" where
  "Disconnect c = c\<lparr>connected := False\<rparr>"

section \<open>Process-wide observers: metrics and the log\<close>

text \<open>
  \<^verbatim>\<open>metrics.Metrics\<close> is a process-wide value of \<^verbatim>\<open>int64\<close> counters changed with
  \<^verbatim>\<open>atomic.AddInt64\<close>, which wraps around. Only the counters the stream manager's callbacks,
  the forwarder task, the dispatcher and the heartbeat touch are kept. The structured logger is
  an append-only list of entries. Health checks and the time stamps are written by the same
  code paths but never read by them, and are left out.
\<close>

record Metrics =
  StreamsTotal :: "64 word"
  StreamsActive :: "64 word"
  StreamsCompleted :: "64 word"
  StreamsFailed :: "64 word"
  FramesReceived :: "64 word"
  FramesError :: "64 word"
  HeartbeatsSent :: "64 word"
  HeartbeatsFailed :: "64 word"

definition zeroMetrics :: Metrics where
  "zeroMetrics = \<lparr>StreamsTotal = 0, StreamsActive = 0, StreamsCompleted = 0, StreamsFailed = 0,
     FramesReceived = 0, FramesError = 0, HeartbeatsSent = 0, HeartbeatsFailed = 0\<rparr>"

datatype LogLevel = LevelDebug | LevelInfo | LevelWarn | LevelError

datatype LogEntry = Log LogLevel string "32 word option"

record Globals =
  metrics :: Metrics
  logs :: "LogEntry list"

definition IncrementStreamsTotal :: "Globals \<Rightarrow> Globals" where
  "IncrementStreamsTotal g = g\<lparr>metrics := (metrics g)\<lparr>StreamsTotal := StreamsTotal (metrics g) + 1\<rparr>\<rparr>"

definition IncrementStreamsActive :: "Globals \<Rightarrow> Globals" where
  "IncrementStreamsActive g = g\<lparr>metrics := (metrics g)\<lparr>StreamsActive := StreamsActive (metrics g) + 1\<rparr>\<rparr>"

definition DecrementStreamsActive :: "Globals \<Rightarrow> Globals" where
  "DecrementStreamsActive g = g\<lparr>metrics := (metrics g)\<lparr>StreamsActive := StreamsActive (metrics g) - 1\<rparr>\<rparr>"

definition IncrementStreamsCompleted :: "Globals \<Rightarrow> Globals" where
  "IncrementStreamsCompleted g =
     g\<lparr>metrics := (metrics g)\<lparr>StreamsCompleted := StreamsCompleted (metrics g) + 1\<rparr>\<rparr>"

definition IncrementStreamsFailed :: "Globals \<Rightarrow> Globals" where
  "IncrementStreamsFailed g = g\<lparr>metrics := (metrics g)\<lparr>StreamsFailed := StreamsFailed (metrics g) + 1\<rparr>\<rparr>"

definition logger :: "LogLevel \<Rightarrow> string \<Rightarrow> 32 word option \<Rightarrow> Globals \<Rightarrow> Globals" where
  "logger lvl msg sid g = g\<lparr>logs := logs g @ [Log lvl msg sid]\<rparr>"

section \<open>Streams and the stream manager\<close>

text \<open>
  A \<^verbatim>\<open>Stream\<close> object. \<open>dataOut\<close> is the content of the buffered channel of inbound
  chunks, oldest first, \<open>dataOutClosed\<close> and \<open>closeCh\<close> say whether the two channels have
  been closed, \<open>readBuf\<close> is the tail of a chunk that \<^verbatim>\<open>Read\<close> has copied only in part.
  The creation time is not kept.
\<close>

datatype StreamState =
  StreamStateInit | StreamStateOpen | StreamStateData | StreamStateClosed | StreamStateError

record Stream =
  ID :: "32 word"
  State :: StreamState
  Metadata :: "string \<rightharpoonup> string"
  dataOut :: "string list"
  dataOutClosed :: bool
  closeCh :: bool
  readBuf :: string

definition dataOut_cap :: nat where "dataOut_cap = 100"

text \<open>
  Stream objects are shared by reference: the registry, the forwarder task of the stream and
  the dispatcher (between its lookup and its send) hold the same object. The process state
  therefore has a store of Stream objects addressed by reference, the registry
  \<^verbatim>\<open>sm.streams\<close> from ids to references, the two callbacks of the manager (either may be
  \<^verbatim>\<open>nil\<close>), the connector, and the process-wide observers.
\<close>

record StreamManager =
  streams :: "32 word \<rightharpoonup> nat"
  onStreamCreated :: "(32 word \<Rightarrow> Globals \<Rightarrow> Globals) option"
  onStreamClosed :: "(32 word \<Rightarrow> Globals \<Rightarrow> Globals) option"

record Agent =
  heap :: "nat \<Rightarrow> Stream"
  nextRef :: nat
  sm :: StreamManager
  conn :: Connector
  globals :: Globals

text \<open>What a call can do besides returning: a Go run-time panic ends the process.\<close>

datatype 'a outcome = Returns 'a | Panics

definition newStream :: "32 word \<Rightarrow> Stream" where
  "newStream streamID = \<lparr>ID = streamID, State = StreamStateInit, Metadata = Map.empty,
     dataOut = [], dataOutClosed = False, closeCh = False, readBuf = []\<rparr>"

definition callback :: "(32 word \<Rightarrow> Globals \<Rightarrow> Globals) option \<Rightarrow> 32 word \<Rightarrow> Agent \<Rightarrow> Agent" where
  "callback cb streamID w =
     (case cb of None \<Rightarrow> w | Some f \<Rightarrow> w\<lparr>globals := f streamID (globals w)\<rparr>)"

definition CreateStream :: "32 word \<Rightarrow> Agent \<Rightarrow> (error + nat) \<times> Agent" where
  "CreateStream streamID w =
     (case streams (sm w) streamID of
        Some r \<Rightarrow> (Inl ErrStreamAlreadyExists, w)
      | None \<Rightarrow>
          (let r = nextRef w;
               w1 = w\<lparr>heap := (heap w)(r := newStream streamID), nextRef := Suc r,
                       sm := (sm w)\<lparr>streams := (streams (sm w))(streamID \<mapsto> r)\<rparr>\<rparr>
           in (Inr r, callback (onStreamCreated (sm w)) streamID w1)))"

definition GetStream :: "32 word \<Rightarrow> Agent \<Rightarrow> nat option" where
  "GetStream streamID w = streams (sm w) streamID"

text \<open>
  \<^verbatim>\<open>CloseStream\<close> as the stream manager has it now: state, \<^verbatim>\<open>close(stream.closeCh)\<close>,
  \<^verbatim>\<open>close(stream.dataOut)\<close>, delete, callback. Closing a channel that is already closed
  panics.
\<close>

definition CloseStream :: "32 word \<Rightarrow> Agent \<Rightarrow> (error option \<times> Agent) outcome" where
  "CloseStream streamID w =
     (case streams (sm w) streamID of
        None \<Rightarrow> Returns (Some ErrStreamNotFound, w)
      | Some r \<Rightarrow>
          (let s = heap w r in
           if closeCh s \<or> dataOutClosed s then Panics
           else
             (let s' = s\<lparr>State := StreamStateClosed, closeCh := True, dataOutClosed := True\<rparr>;
                  w1 = w\<lparr>heap := (heap w)(r := s'),
                          sm := (sm w)\<lparr>streams := (streams (sm w))(streamID := None)\<rparr>\<rparr>
              in Returns (None, callback (onStreamClosed (sm w)) streamID w1))))"

text \<open>
  The earlier revision of the same method (\<^verbatim>\<open>client/stream.go\<close>), which leaves
  \<open>dataOut\<close> open: "Don't close dataOut channel here as it might be used by other
  goroutines".
\<close>

definition CloseStream_legacy :: "32 word \<Rightarrow> Agent \<Rightarrow> (error option \<times> Agent) outcome" where
  "CloseStream_legacy streamID w =
     (case streams (sm w) streamID of
        None \<Rightarrow> Returns (Some ErrStreamNotFound, w)
      | Some r \<Rightarrow>
          (let s = heap w r in
           if closeCh s then Panics
           else
             (let s' = s\<lparr>State := StreamStateClosed, closeCh := True\<rparr>;
                  w1 = w\<lparr>heap := (heap w)(r := s'),
                          sm := (sm w)\<lparr>streams := (streams (sm w))(streamID := None)\<rparr>\<rparr>
              in Returns (None, callback (onStreamClosed (sm w)) streamID w1))))"

subsection \<open>Reading from a stream\<close>

text \<open>
  \<^verbatim>\<open>Stream.Read(p)\<close> with \<open>n = len(p)\<close>. A pending tail is served first. Otherwise the
  method selects between a receive from \<open>dataOut\<close> and a receive from \<open>closeCh\<close>. A receive
  from \<open>dataOut\<close> can proceed when a chunk is buffered (also after the channel was closed:
  a closed channel still yields what it holds) or when the channel is closed and empty (then
  \<^verbatim>\<open>ok\<close> is false); a receive from \<open>closeCh\<close> can proceed once it is closed. When both
  can proceed Go picks one at random, so a call has a list of possible results: the bytes copied
  into \<open>p\<close>, the error, and the stream afterwards. The empty list means that the call blocks
  until another goroutine sends or closes.
\<close>

definition Read :: "nat \<Rightarrow> Stream \<Rightarrow> (string \<times> error option \<times> Stream) list" where
  "Read n s =
     (if length (readBuf s) > 0
      then (let k = min n (length (readBuf s)) in
            [(take k (readBuf s), None, s\<lparr>readBuf := drop k (readBuf s)\<rparr>)])
      else
        (case dataOut s of
           data # rest \<Rightarrow>
             (let k = min n (length data) in
              [(take k data, None,
                if k < length data then s\<lparr>dataOut := rest, readBuf := drop k data\<rparr>
                else s\<lparr>dataOut := rest\<rparr>)])
         | [] \<Rightarrow> (if dataOutClosed s then [([], Some EOF, s)] else []))
        @ (if closeCh s then [([], Some EOF, s)] else []))"

text \<open>The bytes a stream still holds for its reader, in arrival order.\<close>

definition pending :: "Stream \<Rightarrow> string" where
  "pending s = readBuf s @ concat (dataOut s)"

subsection \<open>Delivering a data frame to a stream\<close>

text \<open>
  The select of \<^verbatim>\<open>handleStreamFrame\<close> for a \<^verbatim>\<open>FrameData\<close>: a send of the payload on
  \<open>dataOut\<close> against a receive from \<open>closeCh\<close>. A send on a closed channel can proceed, and
  panics; a send on an open channel can proceed when the buffer has room. The empty list means
  that the dispatcher blocks.
\<close>

datatype deliver_result = Sent Stream | CloseSeen | SendPanics

definition select_deliver :: "string \<Rightarrow> Stream \<Rightarrow> deliver_result list" where
  "select_deliver payload s =
     (if dataOutClosed s then [SendPanics]
      else if length (dataOut s) < dataOut_cap then [Sent (s\<lparr>dataOut := dataOut s @ [payload]\<rparr>)]
      else [])
     @ (if closeCh s then [CloseSeen] else [])"

section \<open>The stream handler and the forwarder task of the agent\<close>

text \<open>The two callbacks \<^verbatim>\<open>main\<close> registers on the stream manager.\<close>

definition main_onStreamCreated :: "32 word \<Rightarrow> Globals \<Rightarrow> Globals" where
  "main_onStreamCreated streamID g =
     IncrementStreamsActive (IncrementStreamsTotal
       (logger LevelInfo ''Stream created'' (Some streamID) g))"

definition main_onStreamClosed :: "32 word \<Rightarrow> Globals \<Rightarrow> Globals" where
  "main_onStreamClosed streamID g =
     IncrementStreamsCompleted (DecrementStreamsActive
       (logger LevelInfo ''Stream closed'' (Some streamID) g))"

definition newAgent :: Agent where
  "newAgent = \<lparr>heap = (\<lambda>r. newStream 0), nextRef = 0,
     sm = \<lparr>streams = Map.empty, onStreamCreated = Some main_onStreamCreated,
            onStreamClosed = Some main_onStreamClosed\<rparr>,
     conn = NewConnector, globals = \<lparr>metrics = zeroMetrics, logs = []\<rparr>\<rparr>"

definition send :: "Frame \<Rightarrow> Agent \<Rightarrow> error option \<times> Agent" where
  "send frame w = (case SendFrame frame (conn w) of (e, c) \<Rightarrow> (e, w\<lparr>conn := c\<rparr>))"

text \<open>
  The goroutine \<^verbatim>\<open>handleStreamFrame\<close> starts for an \<^verbatim>\<open>OpenStream\<close> frame. \<open>res\<close> is
  what \<^verbatim>\<open>forwarder.ForwardRequest\<close> returns: the HTTP round trip to the local service is
  outside the agent. The results of the sends marked \<^verbatim>\<open>_ =\<close> and of \<^verbatim>\<open>CloseStream\<close>
  are dropped, as in the source. The task runs here without another goroutine in between.
\<close>

definition forwardTask :: "Frame \<Rightarrow> error + string \<Rightarrow> Agent \<Rightarrow> Agent outcome" where
  "forwardTask frame res w =
     (case res of
        Inl err \<Rightarrow>
          (let w1 = w\<lparr>globals := IncrementStreamsFailed
                     (logger LevelError ''Failed to forward request'' (Some (StreamID frame))
                        (globals w))\<rparr>;
               errorFrame = \<lparr>Version = v1_Version, Type = FrameData, Flags = FlagError,
                             StreamID = StreamID frame, Payload = error_text err\<rparr>;
               w2 = snd (send errorFrame w1)
           in (case CloseStream (StreamID frame) w2 of
                 Panics \<Rightarrow> Panics
               | Returns (e, w3) \<Rightarrow> Returns w3))
      | Inr responseData \<Rightarrow>
          (let dataFrame = \<lparr>Version = v1_Version, Type = FrameData, Flags = FlagNone,
                            StreamID = StreamID frame, Payload = responseData\<rparr>;
               w1 = (case send dataFrame w of
                       (Some err, w') \<Rightarrow>
                         w'\<lparr>globals := logger LevelError ''Failed to send response''
                                          (Some (StreamID frame)) (globals w')\<rparr>
                     | (None, w') \<Rightarrow> w');
               endFrame = \<lparr>Version = v1_Version, Type = FrameData, Flags = FlagEndStream,
                           StreamID = StreamID frame, Payload = []\<rparr>;
               w2 = snd (send endFrame w1)
           in (case CloseStream (StreamID frame) w2 of
                 Panics \<Rightarrow> Panics
               | Returns (e, w3) \<Rightarrow> Returns w3)))"

text \<open>
  \<^verbatim>\<open>handleStreamFrame\<close>. A result is the returned error, the state, and the frame of
  the forwarder task the call has started, if any; the data branch goes through the select
  above and so has a list of possible results, empty while the dispatcher blocks.
\<close>

datatype hresult = HReturn "error option" Agent "Frame option" | HPanic

definition handleStreamFrame :: "Frame \<Rightarrow> Agent \<Rightarrow> hresult list" where
  "handleStreamFrame frame w =
     (case Type frame of
        FrameOpenStream \<Rightarrow>
          (case CreateStream (StreamID frame) w of
             (Inl err, w') \<Rightarrow> [HReturn (Some (Errorw ''failed to create stream: '' err)) w' None]
           | (Inr r, w') \<Rightarrow> [HReturn None w' (Some frame)])
      | FrameData \<Rightarrow>
          (case GetStream (StreamID frame) w of
             None \<Rightarrow> [HReturn (Some ErrStreamNotFound) w None]
           | Some r \<Rightarrow>
               map (\<lambda>d. case d of
                      Sent s' \<Rightarrow>
                        (let w1 = w\<lparr>heap := (heap w)(r := s')\<rparr> in
                         if IsEndStream frame
                         then (case CloseStream (StreamID frame) w1 of
                                 Panics \<Rightarrow> HPanic
                               | Returns (e, w2) \<Rightarrow> HReturn None w2 None)
                         else HReturn None w1 None)
                    | CloseSeen \<Rightarrow> HReturn (Some ErrStreamNotFound) w None
                    | SendPanics \<Rightarrow> HPanic)
                 (select_deliver (Payload frame) (heap w r)))
      | FrameClose \<Rightarrow>
          (case CloseStream (StreamID frame) w of
             Panics \<Rightarrow> [HPanic]
           | Returns (e, w') \<Rightarrow> [HReturn None w' None])
      | _ \<Rightarrow>
          [HReturn None
             (w\<lparr>globals := logger LevelWarn ''Unknown stream frame type'' (Some (StreamID frame))
                              (globals w)\<rparr>) None])"

section \<open>Dispatcher\<close>



















section \<open>Heartbeat\<close>





definition heartbeatFrame :: Frame where
  "heartbeatFrame = \<lparr>Version = v1_Version, Type = FrameHeartbeat, Flags = FlagNone,
     StreamID = StreamIDControl, Payload = []\<rparr>"





section \<open>Authenticator\<close>

record Authenticator =
  token :: string
  agentID :: string
  version :: string
  capabilities :: "string list"
  metadata :: "string \<rightharpoonup> string"

record AuthResponse =
  Success :: bool
  AgentID :: string
  ServerTime :: "64 word"
  Error :: string

text \<open>
  \<^verbatim>\<open>HandleAuthResponse\<close>. \<^verbatim>\<open>json.Unmarshal\<close> belongs to the Go library: the method takes
  the decoder as the function \<open>unmarshal\<close> from the payload to the decoded response or the
  decoder's error. The \<^verbatim>\<open>config\<close> field of the response is decoded and never read.
\<close>

definition HandleAuthResponse ::
  "(string \<Rightarrow> error + AuthResponse) \<Rightarrow> Frame \<Rightarrow> Authenticator \<Rightarrow> error option \<times> Authenticator"
where
  "HandleAuthResponse unmarshal frame a =
     (if Type frame \<noteq> FrameAuth then (Some ErrInvalidFrame, a)
      else if \<not> IsControlFrame frame then (Some ErrInvalidFrame, a)
      else if \<not> IsAck frame then (Some ErrAuthFailed, a)
      else
        (case unmarshal (Payload frame) of
           Inl err \<Rightarrow> (Some err, a)
         | Inr resp \<Rightarrow>
             if \<not> Success resp then (Some (Errorf (''auth failed: '' @ Error resp)), a)
             else if AgentID resp \<noteq> [] then (None, a\<lparr>agentID := AgentID resp\<rparr>)
             else (None, a)))"

section \<open>Connector: connecting with retry\<close>

text \<open>
  \<^verbatim>\<open>time.Duration(float64(d) * f)\<close>: the product is converted back by truncation towards
  zero. The factor is a \<^verbatim>\<open>float64\<close> in the source and a rational here, and durations are
  unbounded integers: the model computes the product exactly, which is what the source computes
  as long as the product is representable (with the factor 2.0 that \<^verbatim>\<open>NewConnector\<close> sets,
  for every duration below \<open>2^52\<close> nanoseconds, about 52 days).
\<close>

definition truncate :: "rat \<Rightarrow> int" where
  "truncate x = (if x \<ge> 0 then \<lfloor>x\<rfloor> else \<lceil>x\<rceil>)"

definition scale :: "int \<Rightarrow> rat \<Rightarrow> int" where
  "scale d f = truncate (of_int d * f)"

text \<open>\<^verbatim>\<open>%d\<close> of \<^verbatim>\<open>fmt\<close>.\<close>

fun show_nat :: "nat \<Rightarrow> string" where
  "show_nat n = (if n < 10 then [char_of (48 + n)] else show_nat (n div 10) @ [char_of (48 + n mod 10)])"

declare show_nat.simps [simp del]

definition show_int :: "int \<Rightarrow> string" where
  "show_int i = (if i < 0 then CHR ''-'' # show_nat (nat (- i)) else show_nat (nat i))"

text \<open>
  \<^verbatim>\<open>connectWithRetry\<close> runs against a script of what its iterations meet: the context
  found cancelled at the top of the loop, a dial that succeeds, or a dial that fails with an
  error, together with whether the context is cancelled before the wait that follows is over.
  The result is what the method returns (\<open>ConnPending\<close> when the script is used up with the
  loop still running), the waits it has completed, in order, and the connector. The
  \<^verbatim>\<open>onError\<close> callback, the connection metrics and the write loop started on success are
  left out.
\<close>

datatype attempt = CtxDone | DialOk | DialFail error bool

datatype connect_result = ConnOk | ConnErr error | ConnPending

definition maxConsecutiveErrors :: int where "maxConsecutiveErrors = 5"

fun connectLoop ::
  "Connector \<Rightarrow> int \<Rightarrow> int \<Rightarrow> int \<Rightarrow> attempt list \<Rightarrow> int list \<Rightarrow> connect_result \<times> int list"
where
  "connectLoop c backoff retries consecutiveErrors [] waits =
     (if ctxDone c then (ConnErr Canceled, waits) else (ConnPending, waits))"
| "connectLoop c backoff retries consecutiveErrors (ev # evs) waits =
     (if ctxDone c then (ConnErr Canceled, waits)
      else
        (case ev of
           CtxDone \<Rightarrow> (ConnErr Canceled, waits)
         | DialOk \<Rightarrow> (ConnOk, waits)
         | DialFail err cancelled \<Rightarrow>
             (let consecutiveErrors' = consecutiveErrors + 1;
                  backoff' =
                    (if consecutiveErrors' \<ge> maxConsecutiveErrors
                     then (let b = truncate (of_int backoff * backoffFactor c * (3 / 2))
                           in if b > maxBackoff c * 2 then maxBackoff c * 2 else b)
                     else backoff)
              in if maxRetries c > 0 \<and> retries \<ge> maxRetries c
                 then (ConnErr (Errorw (''max retries exceeded after '' @ show_int retries
                                         @ '' attempts: '') err), waits)
                 else if cancelled then (ConnErr Canceled, waits)
                 else connectLoop c
                        (let b = scale backoff' (backoffFactor c)
                         in if b > maxBackoff c then maxBackoff c else b)
                        (retries + 1) consecutiveErrors' evs (waits @ [backoff']))))"

definition connectWithRetry :: "Connector \<Rightarrow> attempt list \<Rightarrow> connect_result \<times> int list \<times> Connector" where
  "connectWithRetry c evs =
     (case connectLoop c (retryInterval c) 0 0 evs [] of
        (r, waits) \<Rightarrow> (r, waits, if r = ConnOk then c\<lparr>connected := True\<rparr> else c))"

section \<open>Invariants and sample states\<close>

text \<open>
  The registry invariant: every registered reference was handed out by \<^verbatim>\<open>CreateStream\<close>,
  the object behind it carries the id it is registered under, and its two channels are open.
\<close>

definition registry_wf :: "Agent \<Rightarrow> bool" where
  "registry_wf w =
     (\<forall>i r. streams (sm w) i = Some r \<longrightarrow>
        r < nextRef w \<and> ID (heap w r) = i \<and> \<not> closeCh (heap w r) \<and> \<not> dataOutClosed (heap w r))"

text \<open>A connected connector whose queue is full, and one whose queue is empty.\<close>

definition fullConnector :: Connector where
  "fullConnector = NewConnector\<lparr>connected := True, sendCh := replicate 100 heartbeatFrame\<rparr>"

definition idleConnector :: Connector where
  "idleConnector = NewConnector\<lparr>connected := True\<rparr>"

text \<open>
  Sample inputs for the authenticator. \<open>sampleUnmarshal\<close> stands for \<^verbatim>\<open>json.Unmarshal\<close>
  on the two payloads used below: the empty payload, which the decoder rejects with "unexpected
  end of JSON input", and a successful response that assigns an agent id.
\<close>

definition sampleUnmarshal :: "string \<Rightarrow> error + AuthResponse" where
  "sampleUnmarshal p =
     (if p = [] then Inl (Foreign ''unexpected end of JSON input'' False)
      else if p = ''{\"success\":true,\"agent_id\":\"agent-1\"}''
      then Inr \<lparr>Success = True, AgentID = ''agent-1'', ServerTime = 0, Error = []\<rparr>
      else Inl (Foreign ''json: cannot decode'' False))"

definition ackFrame :: "string \<Rightarrow> Frame" where
  "ackFrame p = \<lparr>Version = v1_Version, Type = FrameAuth, Flags = FlagAck,
     StreamID = StreamIDControl, Payload = p\<rparr>"

definition sampleAuthenticator :: Authenticator where
  "sampleAuthenticator = \<lparr>token = ''secret'', agentID = [], version = ''1.0.0'',
     capabilities = [], metadata = Map.empty\<rparr>"

text \<open>A stream with two chunks waiting, for the read adapter.\<close>

definition sampleStream :: Stream where
  "sampleStream = (newStream 7)\<lparr>dataOut := [''hello'', ''world'']\<rparr>"

text \<open>
  The agent of \<^verbatim>\<open>main\<close> with a live transport, an \<^verbatim>\<open>OpenStream\<close> frame for stream 7,
  and the agent after that frame has been registered.
\<close>

definition connectedAgent :: Agent where
  "connectedAgent = newAgent\<lparr>conn := idleConnector\<rparr>"

definition openFrame7 :: Frame where
  "openFrame7 = \<lparr>Version = v1_Version, Type = FrameOpenStream, Flags = FlagNone, StreamID = 7,
     Payload = ''GET /status HTTP/1.1''\<rparr>"

definition servingAgent :: Agent where
  "servingAgent = snd (CreateStream 7 connectedAgent)"

text \<open>
  The frames the forwarder task tries to send for a stream, in order, given the result of the
  forward; the frames that terminate a stream; the number of times the closed callback of
  \<^verbatim>\<open>main\<close> has run for a stream, read off the log; and what a send adds to the queue.
\<close>

definition replyFrames :: "32 word \<Rightarrow> error + string \<Rightarrow> Frame list" where
  "replyFrames i res =
     (case res of
        Inl err \<Rightarrow> [\<lparr>Version = v1_Version, Type = FrameData, Flags = FlagError, StreamID = i,
                      Payload = error_text err\<rparr>]
      | Inr responseData \<Rightarrow>
          [\<lparr>Version = v1_Version, Type = FrameData, Flags = FlagNone, StreamID = i,
            Payload = responseData\<rparr>,
           \<lparr>Version = v1_Version, Type = FrameData, Flags = FlagEndStream, StreamID = i,
            Payload = []\<rparr>])"

definition isTerminating :: "32 word \<Rightarrow> Frame \<Rightarrow> bool" where
  "isTerminating i f =
     (Type f = FrameData \<and> StreamID f = i
      \<and> (Flags f = FlagEndStream \<and> Payload f = [] \<or> Flags f = FlagError))"

definition closedCalls :: "32 word \<Rightarrow> Globals \<Rightarrow> nat" where
  "closedCalls i g = length (filter (\<lambda>e. e = Log LevelInfo ''Stream closed'' (Some i)) (logs g))"

definition accepted :: "Connector \<Rightarrow> Frame \<Rightarrow> Frame list" where
  "accepted c f = (if connected c \<and> length (sendCh c) < sendCh_cap then [f] else [])"







text \<open>
  The retry schedule in closed form, by the number of consecutive failures. \<open>spec_backoff c k\<close>
  is the backoff held after \<open>k\<close> failed attempts and their waits: it starts at the retry
  interval, and after each wait it is the wait times the backoff factor, capped at the maximal
  backoff. \<open>spec_wait c k\<close> is the wait that follows the \<open>k\<close>-th failure: the backoff
  held then, and from the fifth failure on that backoff times the factor times 1.5, capped at
  twice the maximal backoff. \<open>spec_waits c k n\<close> lists the waits after failures
  \<open>k + 1\<close> to \<open>k + n\<close>.
\<close>

definition wait_after :: "Connector \<Rightarrow> nat \<Rightarrow> int \<Rightarrow> int" where
  "wait_after c k b =
     (if k \<ge> 5 then min (truncate (of_int b * backoffFactor c * (3 / 2))) (maxBackoff c * 2)
      else b)"

fun spec_backoff :: "Connector \<Rightarrow> nat \<Rightarrow> int" where
  "spec_backoff c 0 = retryInterval c"
| "spec_backoff c (Suc k) =
     min (scale (wait_after c (Suc k) (spec_backoff c k)) (backoffFactor c)) (maxBackoff c)"

definition spec_wait :: "Connector \<Rightarrow> nat \<Rightarrow> int" where
  "spec_wait c k = wait_after c k (spec_backoff c (k - 1))"

fun spec_waits :: "Connector \<Rightarrow> nat \<Rightarrow> nat \<Rightarrow> int list" where
  "spec_waits c k 0 = []"
| "spec_waits c k (Suc n) = spec_wait c (Suc k) # spec_waits c (Suc k) n"

text \<open>Dials that fail with the given errors, each followed by a full wait; a dial error.\<close>

definition dialFails :: "error list \<Rightarrow> attempt list" where
  "dialFails es = map (\<lambda>e. DialFail e False) es"

definition dialRefused :: error where
  "dialRefused = Foreign ''dial tcp 127.0.0.1:8443: connect: connection refused'' False"

text \<open>
  What a stream holds for its reader, counted in bytes and chunks, and \<open>k\<close> reads in a row
  with a buffer of size \<open>n\<close>: the reads go on while each returns data as its only possible
  result, and hand back the bytes read, in order, and the stream.
\<close>

definition backlog :: "Stream \<Rightarrow> nat" where
  "backlog s = length (pending s) + length (dataOut s)"

fun reads :: "nat \<Rightarrow> nat \<Rightarrow> Stream \<Rightarrow> string \<times> Stream" where
  "reads n 0 s = ([], s)"
| "reads n (Suc k) s =
     (case Read n s of
        [(out, None, s')] \<Rightarrow> (case reads n k s' of (later, s'') \<Rightarrow> (out @ later, s''))
      | _ \<Rightarrow> ([], s))"


section \<open>Properties\<close>

subsection \<open>Helper facts\<close>

lemma callback_fields [simp]:
  "heap (callback cb i w) = heap w" "nextRef (callback cb i w) = nextRef w"
  "sm (callback cb i w) = sm w" "conn (callback cb i w) = conn w"
  by (simp_all add: callback_def split: option.splits)

lemma globals_callback:
  "globals (callback cb i w) = (case cb of None \<Rightarrow> globals w | Some f \<Rightarrow> f i (globals w))"
  by (simp add: callback_def split: option.splits)

lemma registry_wf_newAgent: "registry_wf newAgent"
  by (simp add: registry_wf_def newAgent_def)

lemma CreateStream_exists:
  "streams (sm w) i = Some r \<Longrightarrow> CreateStream i w = (Inl ErrStreamAlreadyExists, w)"
  by (simp add: CreateStream_def)

lemma CreateStream_new:
  assumes "registry_wf w" "streams (sm w) i = None"
  shows "\<exists>r w'. CreateStream i w = (Inr r, w') \<and> GetStream i w' = Some r
           \<and> heap w' r = newStream i \<and> r \<notin> ran (streams (sm w))
           \<and> (\<forall>j. j \<noteq> i \<longrightarrow> GetStream j w' = GetStream j w)
           \<and> globals w' = (case onStreamCreated (sm w) of None \<Rightarrow> globals w
                            | Some f \<Rightarrow> f i (globals w))
           \<and> registry_wf w'"
proof -
  have fresh: "nextRef w \<notin> ran (streams (sm w))"
    using assms(1) by (auto simp: registry_wf_def ran_def)
  have wf: "registry_wf (snd (CreateStream i w))"
    using assms by (auto simp: registry_wf_def CreateStream_def Let_def newStream_def less_Suc_eq)
  show ?thesis
    using fresh wf assms(2)
    by (simp add: CreateStream_def Let_def GetStream_def globals_callback split: option.splits)
qed

lemma CloseStream_absent:
  "streams (sm w) i = None \<Longrightarrow> CloseStream i w = Returns (Some ErrStreamNotFound, w)"
  by (simp add: CloseStream_def)

lemma CloseStream_present:
  assumes "registry_wf w" "streams (sm w) i = Some r"
  shows "\<exists>w'. CloseStream i w = Returns (None, w') \<and> GetStream i w' = None
           \<and> (\<forall>j. j \<noteq> i \<longrightarrow> GetStream j w' = GetStream j w)
           \<and> heap w' r = (heap w r)\<lparr>State := StreamStateClosed, closeCh := True,
                                      dataOutClosed := True\<rparr>
           \<and> globals w' = (case onStreamClosed (sm w) of None \<Rightarrow> globals w
                            | Some f \<Rightarrow> f i (globals w))
           \<and> registry_wf w'
           \<and> CloseStream i w' = Returns (Some ErrStreamNotFound, w')"
proof -
  have still_open: "\<not> closeCh (heap w r)" "\<not> dataOutClosed (heap w r)"
    using assms by (auto simp: registry_wf_def)
  have inj: "\<And>j r'. streams (sm w) j = Some r' \<Longrightarrow> j \<noteq> i \<Longrightarrow> r' \<noteq> r"
    using assms by (auto simp: registry_wf_def)
  define w' where "w' = callback (onStreamClosed (sm w)) i
     (w\<lparr>heap := (heap w)(r := (heap w r)\<lparr>State := StreamStateClosed, closeCh := True,
                                          dataOutClosed := True\<rparr>),
        sm := (sm w)\<lparr>streams := (streams (sm w))(i := None)\<rparr>\<rparr>)"
  have eq: "CloseStream i w = Returns (None, w')"
    using assms(2) still_open by (simp add: CloseStream_def Let_def w'_def)
  have wf: "registry_wf w'"
    using assms(1) inj by (auto simp: registry_wf_def w'_def)
  have gone: "streams (sm w') i = None" by (simp add: w'_def)
  show ?thesis
    using eq wf gone CloseStream_absent[OF gone]
    by (simp add: GetStream_def w'_def globals_callback split: option.splits)
qed

lemma CloseStream_legacy_absent:
  "streams (sm w) i = None \<Longrightarrow> CloseStream_legacy i w = Returns (Some ErrStreamNotFound, w)"
  by (simp add: CloseStream_legacy_def)

lemma CloseStream_legacy_present:
  assumes "registry_wf w" "streams (sm w) i = Some r"
  shows "\<exists>w'. CloseStream_legacy i w = Returns (None, w') \<and> GetStream i w' = None
           \<and> heap w' r = (heap w r)\<lparr>State := StreamStateClosed, closeCh := True\<rparr>
           \<and> globals w' = (case onStreamClosed (sm w) of None \<Rightarrow> globals w
                            | Some f \<Rightarrow> f i (globals w))
           \<and> registry_wf w'
           \<and> CloseStream_legacy i w' = Returns (Some ErrStreamNotFound, w')"
proof -
  have still_open: "\<not> closeCh (heap w r)"
    using assms by (auto simp: registry_wf_def)
  have inj: "\<And>j r'. streams (sm w) j = Some r' \<Longrightarrow> j \<noteq> i \<Longrightarrow> r' \<noteq> r"
    using assms by (auto simp: registry_wf_def)
  define w' where "w' = callback (onStreamClosed (sm w)) i
     (w\<lparr>heap := (heap w)(r := (heap w r)\<lparr>State := StreamStateClosed, closeCh := True\<rparr>),
        sm := (sm w)\<lparr>streams := (streams (sm w))(i := None)\<rparr>\<rparr>)"
  have eq: "CloseStream_legacy i w = Returns (None, w')"
    using assms(2) still_open by (simp add: CloseStream_legacy_def Let_def w'_def)
  have wf: "registry_wf w'"
    using assms(1) inj by (auto simp: registry_wf_def w'_def)
  have gone: "streams (sm w') i = None" by (simp add: w'_def)
  show ?thesis
    using eq wf gone CloseStream_legacy_absent[OF gone]
    by (simp add: GetStream_def w'_def globals_callback split: option.splits)
qed

lemma registered_at_most_one:
  assumes "registry_wf w"
  shows "{r \<in> ran (streams (sm w)). ID (heap w r) = i} = set_option (streams (sm w) i)"
  using assms by (auto simp: registry_wf_def ran_def)

lemma registry_wf_upd [simp]:
  "registry_wf (w\<lparr>conn := c\<rparr>) = registry_wf w"
  "registry_wf (w\<lparr>globals := g\<rparr>) = registry_wf w"
  by (simp_all add: registry_wf_def)

lemma registry_wf_connectedAgent: "registry_wf connectedAgent"
  by (simp add: connectedAgent_def registry_wf_newAgent)

lemma registry_wf_servingAgent: "registry_wf servingAgent"
proof -
  have "streams (sm connectedAgent) 7 = None"
    by (simp add: connectedAgent_def newAgent_def)
  from CreateStream_new [OF registry_wf_connectedAgent this]
  show ?thesis by (auto simp: servingAgent_def)
qed

lemma snd_send:
  "snd (send f w) = w\<lparr>conn := (conn w)\<lparr>sendCh := sendCh (conn w) @ accepted (conn w) f\<rparr>\<rparr>"
  by (simp add: send_def SendFrame_def accepted_def)

lemma CloseStream_wf:
  assumes "registry_wf w"
  shows "\<exists>e w'. CloseStream i w = Returns (e, w') \<and> conn w' = conn w \<and> streams (sm w') i = None
           \<and> globals w' = (case streams (sm w) i of None \<Rightarrow> globals w
                | Some r \<Rightarrow> (case onStreamClosed (sm w) of None \<Rightarrow> globals w
                              | Some f \<Rightarrow> f i (globals w)))
           \<and> registry_wf w'"
proof (cases "streams (sm w) i")
  case None
  then show ?thesis using assms by (simp add: CloseStream_def)
next
  case (Some r)
  obtain w' where w': "CloseStream i w = Returns (None, w')" "GetStream i w' = None"
      "globals w' = (case onStreamClosed (sm w) of None \<Rightarrow> globals w
                     | Some f \<Rightarrow> f i (globals w))"
      "registry_wf w'"
    using CloseStream_present [OF assms Some] by blast
  have "conn w' = conn w"
    using w'(1) Some by (auto simp: CloseStream_def Let_def split: if_splits)
  then show ?thesis using w' Some by (simp add: GetStream_def)
qed

lemma closedCalls_main:
  "closedCalls i (main_onStreamClosed i g) = Suc (closedCalls i g)"
  by (simp add: closedCalls_def main_onStreamClosed_def IncrementStreamsCompleted_def
      DecrementStreamsActive_def logger_def)

lemma closedCalls_other [simp]:
  "closedCalls i (IncrementStreamsFailed g) = closedCalls i g"
  "closedCalls i (logger LevelError msg sid g) = closedCalls i g"
  by (simp_all add: closedCalls_def IncrementStreamsFailed_def logger_def)

lemma forwardTask_effect:
  assumes wf: "registry_wf w" and cb: "onStreamClosed (sm w) = Some main_onStreamClosed"
  shows "\<exists>w' new. forwardTask frame res w = Returns w'
           \<and> sendCh (conn w') = sendCh (conn w) @ new
           \<and> set new \<subseteq> set (replyFrames (StreamID frame) res)
           \<and> (connected (conn w) \<and> length (sendCh (conn w)) + 2 \<le> sendCh_cap \<longrightarrow>
                new = replyFrames (StreamID frame) res)
           \<and> (\<not> connected (conn w) \<longrightarrow> new = [])
           \<and> length (filter (isTerminating (StreamID frame)) new) \<le> 1
           \<and> streams (sm w') (StreamID frame) = None
           \<and> closedCalls (StreamID frame) (globals w')
               = closedCalls (StreamID frame) (globals w)
                 + (if streams (sm w) (StreamID frame) = None then 0 else 1)"
proof (cases res)
  case (Inl err)
  define ef where "ef = \<lparr>Version = v1_Version, Type = FrameData, Flags = FlagError,
     StreamID = StreamID frame, Payload = error_text err\<rparr>"
  define w1 where "w1 = w\<lparr>globals := IncrementStreamsFailed
     (logger LevelError ''Failed to forward request'' (Some (StreamID frame)) (globals w))\<rparr>"
  define w2 where "w2 = snd (send ef w1)"
  have wf2: "registry_wf w2" using wf by (simp add: w2_def w1_def snd_send)
  obtain e w3 where w3: "CloseStream (StreamID frame) w2 = Returns (e, w3)" "conn w3 = conn w2"
      "streams (sm w3) (StreamID frame) = None"
      "globals w3 = (case streams (sm w2) (StreamID frame) of None \<Rightarrow> globals w2
                | Some r \<Rightarrow> (case onStreamClosed (sm w2) of None \<Rightarrow> globals w2
                              | Some f \<Rightarrow> f (StreamID frame) (globals w2)))"
    using CloseStream_wf [OF wf2, of "StreamID frame"] by blast
  have ft: "forwardTask frame res w = Returns w3"
    using w3(1) by (simp add: forwardTask_def Inl Let_def w2_def w1_def ef_def)
  have q: "sendCh (conn w3) = sendCh (conn w) @ accepted (conn w) ef"
    by (simp add: w3(2) w2_def w1_def snd_send)
  have g: "closedCalls (StreamID frame) (globals w3)
             = closedCalls (StreamID frame) (globals w)
               + (if streams (sm w) (StreamID frame) = None then 0 else 1)"
    using cb by (auto simp: w3(4) w2_def w1_def snd_send closedCalls_main split: option.splits)
  show ?thesis
    using ft q g w3(3)
    by (auto simp: accepted_def replyFrames_def Inl ef_def sendCh_cap_def)
next
  case (Inr d)
  define df where "df = \<lparr>Version = v1_Version, Type = FrameData, Flags = FlagNone,
     StreamID = StreamID frame, Payload = d\<rparr>"
  define ef where "ef = \<lparr>Version = v1_Version, Type = FrameData, Flags = FlagEndStream,
     StreamID = StreamID frame, Payload = []\<rparr>"
  define w1 where "w1 = (case send df w of
                       (Some err, w') \<Rightarrow>
                         w'\<lparr>globals := logger LevelError ''Failed to send response''
                                          (Some (StreamID frame)) (globals w')\<rparr>
                     | (None, w') \<Rightarrow> w')"
  define w2 where "w2 = snd (send ef w1)"
  have c1: "conn w1 = (conn w)\<lparr>sendCh := sendCh (conn w) @ accepted (conn w) df\<rparr>"
    using snd_send [of df w] by (cases "send df w") (auto simp: w1_def split: option.splits)
  have r1: "sm w1 = sm w" "heap w1 = heap w" "nextRef w1 = nextRef w"
    using snd_send [of df w] by (cases "send df w"; auto simp: w1_def split: option.splits)+
  have g1: "closedCalls (StreamID frame) (globals w1) = closedCalls (StreamID frame) (globals w)"
    using snd_send [of df w] by (cases "send df w") (auto simp: w1_def split: option.splits)
  have wf1: "registry_wf w1" using wf r1 by (simp add: registry_wf_def)
  have wf2: "registry_wf w2" using wf1 by (simp add: w2_def snd_send)
  obtain e w3 where w3: "CloseStream (StreamID frame) w2 = Returns (e, w3)" "conn w3 = conn w2"
      "streams (sm w3) (StreamID frame) = None"
      "globals w3 = (case streams (sm w2) (StreamID frame) of None \<Rightarrow> globals w2
                | Some r \<Rightarrow> (case onStreamClosed (sm w2) of None \<Rightarrow> globals w2
                              | Some f \<Rightarrow> f (StreamID frame) (globals w2)))"
    using CloseStream_wf [OF wf2, of "StreamID frame"] by blast
  have ft: "forwardTask frame res w = Returns w3"
    using w3(1) by (simp add: forwardTask_def Inr Let_def w2_def w1_def ef_def df_def)
  have q: "sendCh (conn w3) = sendCh (conn w) @ accepted (conn w) df @ accepted (conn w1) ef"
    by (simp add: w3(2) w2_def snd_send c1)
  have g: "closedCalls (StreamID frame) (globals w3)
             = closedCalls (StreamID frame) (globals w)
               + (if streams (sm w) (StreamID frame) = None then 0 else 1)"
    using cb g1 r1 by (auto simp: w3(4) w2_def snd_send closedCalls_main split: option.splits)
  show ?thesis
    using ft q g w3(3)
    by (auto simp: accepted_def replyFrames_def Inr ef_def df_def sendCh_cap_def c1
        isTerminating_def FlagNone_def FlagEndStream_def FlagError_def)
qed

lemma replyFrames_terminator:
  "filter (isTerminating i) (replyFrames i res) = [last (replyFrames i res)]
   \<and> replyFrames i res \<noteq> []"
  by (cases res)
    (simp_all add: replyFrames_def isTerminating_def FlagNone_def FlagEndStream_def FlagError_def)

lemma handle_open:
  assumes "registry_wf w" "Type frame = FrameOpenStream"
  shows "(case streams (sm w) (StreamID frame) of
          Some r \<Rightarrow>
            handleStreamFrame frame w =
              [HReturn (Some (Errorw ''failed to create stream: '' ErrStreamAlreadyExists)) w None]
        | None \<Rightarrow>
            (\<exists>w'. handleStreamFrame frame w = [HReturn None w' (Some frame)]
               \<and> streams (sm w') (StreamID frame) \<noteq> None \<and> registry_wf w'
               \<and> conn w' = conn w \<and> onStreamClosed (sm w') = onStreamClosed (sm w)))"
proof (cases "streams (sm w) (StreamID frame)")
  case None
  obtain r w' where c: "CreateStream (StreamID frame) w = (Inr r, w')"
     "GetStream (StreamID frame) w' = Some r" "registry_wf w'"
    using CreateStream_new [OF assms(1) None] by blast
  have "conn w' = conn w \<and> onStreamClosed (sm w') = onStreamClosed (sm w)"
    using c(1) None by (auto simp: CreateStream_def Let_def)
  then show ?thesis
    using c None assms(2) by (simp add: handleStreamFrame_def GetStream_def)
next
  case (Some r)
  then show ?thesis
    using assms(2) by (simp add: handleStreamFrame_def CreateStream_def)
qed

subsection \<open>The outbound queue\<close>

text \<open>
  C4. \<^verbatim>\<open>SendFrame\<close> is a total function of the frame and the connector, so it returns
  without waiting for anything. It fails with \<open>ErrNotConnected\<close> and leaves the connector as
  it is when no transport is active; with a transport and 100 frames queued it returns the
  "send queue full" error and queues nothing; with a transport and fewer than 100 frames queued
  it returns no error and the frame is the newest entry of the queue. The queue never grows
  beyond its capacity, which is 100.
\<close>

theorem SendFrame_contract:
  assumes "length (sendCh c) \<le> sendCh_cap"
  shows "(\<not> connected c \<longrightarrow> SendFrame frame c = (Some ErrNotConnected, c))
       \<and> (connected c \<and> length (sendCh c) = 100 \<longrightarrow>
            SendFrame frame c = (Some (Errorf ''send queue full''), c))
       \<and> (connected c \<and> length (sendCh c) < 100 \<longrightarrow>
            SendFrame frame c = (None, c\<lparr>sendCh := sendCh c @ [frame]\<rparr>))
       \<and> length (sendCh (snd (SendFrame frame c))) \<le> sendCh_cap
       \<and> sendCh NewConnector = [] \<and> sendCh_cap = 100"
  using assms by (simp add: SendFrame_def sendCh_cap_def NewConnector_def)

theorem SendFrame_contract_witness:
  "SendFrame heartbeatFrame NewConnector = (Some ErrNotConnected, NewConnector)
   \<and> SendFrame heartbeatFrame fullConnector = (Some (Errorf ''send queue full''), fullConnector)
   \<and> SendFrame heartbeatFrame idleConnector = (None, idleConnector\<lparr>sendCh := [heartbeatFrame]\<rparr>)"
proof -
  have a: "SendFrame heartbeatFrame NewConnector = (Some ErrNotConnected, NewConnector)"
    using SendFrame_contract [of NewConnector heartbeatFrame]
    by (simp add: NewConnector_def sendCh_cap_def)
  have b: "SendFrame heartbeatFrame fullConnector = (Some (Errorf ''send queue full''), fullConnector)"
    using SendFrame_contract [of fullConnector heartbeatFrame]
    by (simp add: NewConnector_def fullConnector_def sendCh_cap_def)
  have c: "SendFrame heartbeatFrame idleConnector = (None, idleConnector\<lparr>sendCh := [heartbeatFrame]\<rparr>)"
    using SendFrame_contract [of idleConnector heartbeatFrame]
    by (simp add: NewConnector_def idleConnector_def sendCh_cap_def)
  show ?thesis by (intro conjI a b c)
qed

subsection \<open>The stream registry\<close>

text \<open>
  C5. In a state that satisfies the registry invariant (the state \<^verbatim>\<open>NewStreamManager\<close>
  starts from does, and both operations keep it): the registered Stream objects that carry a
  given id are at most the one the registry maps the id to. When the id is absent,
  \<^verbatim>\<open>CreateStream\<close> returns a fresh object in state \<open>Init\<close>, registers it under the id, runs
  the created callback once and touches no other id, and \<^verbatim>\<open>CloseStream\<close> returns
  \<open>ErrStreamNotFound\<close> and changes nothing. When the id is present, \<^verbatim>\<open>CreateStream\<close>
  returns \<open>ErrStreamAlreadyExists\<close> and changes nothing, and \<^verbatim>\<open>CloseStream\<close> returns no
  error, marks the object closed, closes both of its channels, removes the id (a lookup no
  longer finds it), runs the closed callback once, and a second \<^verbatim>\<open>CloseStream\<close> of the id
  returns \<open>ErrStreamNotFound\<close> and changes nothing. The earlier revision of
  \<^verbatim>\<open>CloseStream\<close> does the same, except that it leaves the FIFO of the object open.
\<close>

theorem registry_contract:
  assumes "registry_wf w"
  shows "(case streams (sm w) i of
            None \<Rightarrow>
              (\<exists>r w'. CreateStream i w = (Inr r, w') \<and> GetStream i w' = Some r
                 \<and> heap w' r = newStream i \<and> r \<notin> ran (streams (sm w))
                 \<and> (\<forall>j. j \<noteq> i \<longrightarrow> GetStream j w' = GetStream j w)
                 \<and> globals w' = (case onStreamCreated (sm w) of None \<Rightarrow> globals w
                                  | Some f \<Rightarrow> f i (globals w))
                 \<and> registry_wf w')
              \<and> CloseStream i w = Returns (Some ErrStreamNotFound, w)
              \<and> CloseStream_legacy i w = Returns (Some ErrStreamNotFound, w)
          | Some r \<Rightarrow>
              CreateStream i w = (Inl ErrStreamAlreadyExists, w)
              \<and> (\<exists>w'. CloseStream i w = Returns (None, w') \<and> GetStream i w' = None
                   \<and> (\<forall>j. j \<noteq> i \<longrightarrow> GetStream j w' = GetStream j w)
                   \<and> heap w' r = (heap w r)\<lparr>State := StreamStateClosed, closeCh := True,
                                              dataOutClosed := True\<rparr>
                   \<and> globals w' = (case onStreamClosed (sm w) of None \<Rightarrow> globals w
                                    | Some f \<Rightarrow> f i (globals w))
                   \<and> registry_wf w'
                   \<and> CloseStream i w' = Returns (Some ErrStreamNotFound, w'))
              \<and> (\<exists>w'. CloseStream_legacy i w = Returns (None, w') \<and> GetStream i w' = None
                   \<and> heap w' r = (heap w r)\<lparr>State := StreamStateClosed, closeCh := True\<rparr>
                   \<and> globals w' = (case onStreamClosed (sm w) of None \<Rightarrow> globals w
                                    | Some f \<Rightarrow> f i (globals w))
                   \<and> registry_wf w'
                   \<and> CloseStream_legacy i w' = Returns (Some ErrStreamNotFound, w')))
       \<and> {r \<in> ran (streams (sm w)). ID (heap w r) = i} = set_option (streams (sm w) i)"
proof (cases "streams (sm w) i")
  case None
  then show ?thesis
    using CreateStream_new [OF assms None] CloseStream_absent [OF None]
      CloseStream_legacy_absent [OF None] registered_at_most_one [OF assms, of i]
    by simp
next
  case (Some r)
  then show ?thesis
    using CreateStream_exists [OF Some] CloseStream_present [OF assms Some]
      CloseStream_legacy_present [OF assms Some] registered_at_most_one [OF assms, of i]
    by simp
qed

theorem registry_contract_witness:
  "registry_wf connectedAgent
   \<and> CloseStream 7 connectedAgent = Returns (Some ErrStreamNotFound, connectedAgent)
   \<and> registry_wf servingAgent
   \<and> CreateStream 7 servingAgent = (Inl ErrStreamAlreadyExists, servingAgent)
   \<and> (\<exists>w'. CloseStream 7 servingAgent = Returns (None, w') \<and> GetStream 7 w' = None)"
proof -
  have wf0: "registry_wf connectedAgent"
    by (simp add: registry_wf_def connectedAgent_def newAgent_def)
  have n: "streams (sm connectedAgent) 7 = None"
    by (simp add: connectedAgent_def newAgent_def)
  have a: "CloseStream 7 connectedAgent = Returns (Some ErrStreamNotFound, connectedAgent)"
    using registry_contract [OF wf0, of 7] n by simp
  have wf7: "registry_wf servingAgent"
    using CreateStream_new [OF wf0 n] by (auto simp: servingAgent_def)
  have s7: "streams (sm servingAgent) 7 = Some 0"
    by (simp add: servingAgent_def CreateStream_def connectedAgent_def newAgent_def Let_def)
  have b: "CreateStream 7 servingAgent = (Inl ErrStreamAlreadyExists, servingAgent)
           \<and> (\<exists>w'. CloseStream 7 servingAgent = Returns (None, w') \<and> GetStream 7 w' = None)"
    using registry_contract [OF wf7, of 7] s7 by auto
  show ?thesis using wf0 a wf7 b by simp
qed

subsection \<open>The authentication response\<close>

text \<open>
  C3, as the code has it. \<^verbatim>\<open>HandleAuthResponse\<close> returns no error exactly when the frame
  is a control \<^verbatim>\<open>FrameAuth\<close> with the Ack flag whose payload decodes to a response with
  \<open>success = true\<close>. A frame that is not \<^verbatim>\<open>FrameAuth\<close> or not a control frame yields
  \<open>ErrInvalidFrame\<close>; a missing Ack flag yields \<open>ErrAuthFailed\<close>; a payload the decoder
  rejects yields the decoder's own error, unchanged; \<open>success = false\<close> yields an error
  whose text is "auth failed: " followed by the error message of the response. On success a
  non-empty agent id of the response replaces the stored one; in every other case the
  authenticator is unchanged.
\<close>

theorem auth_response_contract:
  "(fst (HandleAuthResponse unmarshal frame a) = None \<longleftrightarrow>
      Type frame = FrameAuth \<and> IsControlFrame frame \<and> IsAck frame
      \<and> (\<exists>resp. unmarshal (Payload frame) = Inr resp \<and> Success resp))
   \<and> (Type frame \<noteq> FrameAuth \<or> \<not> IsControlFrame frame \<longrightarrow>
        HandleAuthResponse unmarshal frame a = (Some ErrInvalidFrame, a))
   \<and> (Type frame = FrameAuth \<and> IsControlFrame frame \<and> \<not> IsAck frame \<longrightarrow>
        HandleAuthResponse unmarshal frame a = (Some ErrAuthFailed, a))
   \<and> (Type frame = FrameAuth \<and> IsControlFrame frame \<and> IsAck frame \<longrightarrow>
        (case unmarshal (Payload frame) of
           Inl err \<Rightarrow> HandleAuthResponse unmarshal frame a = (Some err, a)
         | Inr resp \<Rightarrow>
             if Success resp
             then HandleAuthResponse unmarshal frame a =
                    (None, if AgentID resp = [] then a else a\<lparr>agentID := AgentID resp\<rparr>)
             else HandleAuthResponse unmarshal frame a =
                    (Some (Errorf (''auth failed: '' @ Error resp)), a)))"
  by (auto simp: HandleAuthResponse_def split: sum.splits)

theorem auth_response_contract_witness:
  "HandleAuthResponse sampleUnmarshal (ackFrame ''{\"success\":true,\"agent_id\":\"agent-1\"}'')
     sampleAuthenticator = (None, sampleAuthenticator\<lparr>agentID := ''agent-1''\<rparr>)"
  using auth_response_contract [of sampleUnmarshal
      "ackFrame ''{\"success\":true,\"agent_id\":\"agent-1\"}''" sampleAuthenticator]
  by (simp add: sampleUnmarshal_def ackFrame_def IsControlFrame_def IsAck_def FlagAck_def
      StreamIDControl_def)

text \<open>
  The claim as stated has an unparseable payload yield \<open>ErrInvalidFrame\<close>. An Ack frame with
  an empty payload: the decoder's error comes back instead.
\<close>

theorem auth_unparseable_counterexample:
  "HandleAuthResponse sampleUnmarshal (ackFrame []) sampleAuthenticator
     = (Some (Foreign ''unexpected end of JSON input'' False), sampleAuthenticator)
   \<and> fst (HandleAuthResponse sampleUnmarshal (ackFrame []) sampleAuthenticator)
       \<noteq> Some ErrInvalidFrame"
  by (simp add: HandleAuthResponse_def sampleUnmarshal_def ackFrame_def IsControlFrame_def
      IsAck_def FlagAck_def StreamIDControl_def)

subsection \<open>The read adapter\<close>

lemma Read_cursor_first:
  "readBuf s \<noteq> [] \<Longrightarrow>
     Read n s = [(take n (readBuf s), None, s\<lparr>readBuf := drop n (readBuf s)\<rparr>)]"
  by (simp add: Read_def Let_def min_def)

lemma Read_chunk:
  assumes "readBuf s = []" "(out, None, s') \<in> set (Read n s)"
  shows "\<exists>data rest. dataOut s = data # rest \<and> out = take n data \<and> readBuf s' = drop n data
           \<and> dataOut s' = rest"
  using assms by (auto simp: Read_def Let_def min_def split: list.splits if_splits)

lemma Read_in_order:
  assumes "(out, err, s') \<in> set (Read n s)"
  shows "out @ pending s' = pending s \<and> length out \<le> n
         \<and> (err = None \<or> (err = Some EOF \<and> out = [] \<and> s' = s))"
  using assms by (auto simp: Read_def Let_def pending_def min_def split: list.splits if_splits)

lemma Read_eof:
  assumes "readBuf s = []" "dataOut s = []" "dataOutClosed s \<or> closeCh s"
  shows "Read n s \<noteq> [] \<and> set (Read n s) = {([], Some EOF, s)}"
  using assms by (auto simp: Read_def)

lemma Read_dequeues:
  assumes "readBuf s = []" "dataOut s = data # rest"
  shows "Read n s =
           (take n data, None,
            if n < length data then s\<lparr>dataOut := rest, readBuf := drop n data\<rparr>
            else s\<lparr>dataOut := rest\<rparr>)
           # (if closeCh s then [([], Some EOF, s)] else [])"
  using assms by (simp add: Read_def Let_def min_def)

lemma Read_step:
  assumes "\<not> closeCh s" "0 < n" "0 < backlog s"
  shows "\<exists>out s'. Read n s = [(out, None, s')] \<and> out @ pending s' = pending s
           \<and> backlog s' < backlog s \<and> \<not> closeCh s'"
proof (cases "readBuf s = []")
  case False
  then show ?thesis
    using assms Read_cursor_first [OF False, of n]
    by (cases "readBuf s") (auto simp: backlog_def pending_def)
next
  case True
  then obtain data rest where d: "dataOut s = data # rest"
    using assms(3) by (cases "dataOut s") (auto simp: backlog_def pending_def)
  show ?thesis
    using assms Read_dequeues [OF True d, of n]
    by (auto simp: backlog_def pending_def True d)
qed

lemma Read_idle:
  assumes "\<not> closeCh s" "backlog s = 0"
  shows "Read n s = (if dataOutClosed s then [([], Some EOF, s)] else [])"
  using assms by (auto simp: Read_def backlog_def pending_def)

lemma reads_drains:
  assumes "\<not> closeCh s" "0 < n" "backlog s < k"
  shows "reads n k s = (pending s, s\<lparr>dataOut := [], readBuf := []\<rparr>)"
  using assms
proof (induction k arbitrary: s)
  case 0
  then show ?case by simp
next
  case (Suc k)
  show ?case
  proof (cases "backlog s = 0")
    case True
    then have e: "pending s = []" "dataOut s = []" "readBuf s = []"
      by (auto simp: backlog_def pending_def)
    have "s\<lparr>dataOut := [], readBuf := []\<rparr> = s" using e by simp
    then show ?thesis
      using Read_idle [OF Suc.prems(1) True, of n] e by simp
  next
    case False
    then obtain out s' where r: "Read n s = [(out, None, s')]" "out @ pending s' = pending s"
        "backlog s' < backlog s" "\<not> closeCh s'"
      using Read_step [OF Suc.prems(1,2)] by auto
    have same: "s'\<lparr>dataOut := [], readBuf := []\<rparr> = s\<lparr>dataOut := [], readBuf := []\<rparr>"
      using r(1) by (auto simp: Read_def Let_def split: if_splits list.splits)
    have "reads n k s' = (pending s', s'\<lparr>dataOut := [], readBuf := []\<rparr>)"
      using Suc.IH [OF r(4) Suc.prems(2)] r(3) Suc.prems(3) by simp
    then show ?thesis using r(1,2) same by simp
  qed
qed

text \<open>
  C7. A read with a pending tail serves it (up to the size of the caller's buffer), keeps the
  rest of the tail and leaves the FIFO alone. A read without a pending tail, with a chunk in
  the FIFO: the read can return, and its first possible result takes the oldest chunk off the
  FIFO, copies what fits of it and keeps the rest of the chunk as the new tail; this is its only
  possible result unless the close signal has fired, in which case \<open>EOF\<close> is the other one.
  A read without a pending tail that returns data has done exactly that. Whatever a read
  returns, the bytes it hands out followed by the bytes the stream still holds are the bytes
  the stream held before; a read returns either data with no error, or no data with \<open>EOF\<close>
  and the stream unchanged. With no tail and an empty FIFO, once the FIFO is closed or the close
  signal has fired, a read returns at once and can only return \<open>EOF\<close>; with both still
  open it blocks. Hence, as long as the close signal has not fired, reads with a non-empty
  buffer drain the stream: enough of them in a row hand out all the bytes the stream holds, in
  arrival order, and leave the tail and the FIFO empty.
\<close>

theorem Read_contract:
  "(readBuf s \<noteq> [] \<longrightarrow>
      Read n s = [(take n (readBuf s), None, s\<lparr>readBuf := drop n (readBuf s)\<rparr>)])
   \<and> (readBuf s = [] \<longrightarrow>
        (\<forall>out s'. (out, None, s') \<in> set (Read n s) \<longrightarrow>
           (\<exists>data rest. dataOut s = data # rest \<and> out = take n data
              \<and> readBuf s' = drop n data \<and> dataOut s' = rest)))
   \<and> (\<forall>out err s'. (out, err, s') \<in> set (Read n s) \<longrightarrow>
        out @ pending s' = pending s \<and> length out \<le> n
        \<and> (err = None \<or> (err = Some EOF \<and> out = [] \<and> s' = s)))
   \<and> (readBuf s = [] \<and> dataOut s = [] \<and> (dataOutClosed s \<or> closeCh s) \<longrightarrow>
        Read n s \<noteq> [] \<and> set (Read n s) = {([], Some EOF, s)})
   \<and> (readBuf s = [] \<longrightarrow>
        (\<forall>data rest. dataOut s = data # rest \<longrightarrow>
           Read n s =
             (take n data, None,
              if n < length data then s\<lparr>dataOut := rest, readBuf := drop n data\<rparr>
              else s\<lparr>dataOut := rest\<rparr>)
             # (if closeCh s then [([], Some EOF, s)] else [])))
   \<and> (readBuf s = [] \<and> dataOut s = [] \<and> \<not> dataOutClosed s \<and> \<not> closeCh s \<longrightarrow> Read n s = [])
   \<and> (\<not> closeCh s \<and> 0 < n \<and> backlog s < k \<longrightarrow>
        reads n k s = (pending s, s\<lparr>dataOut := [], readBuf := []\<rparr>))"
proof -
  have a: "readBuf s \<noteq> [] \<longrightarrow>
      Read n s = [(take n (readBuf s), None, s\<lparr>readBuf := drop n (readBuf s)\<rparr>)]"
    using Read_cursor_first [of s n] by blast
  have b: "readBuf s = [] \<longrightarrow>
        (\<forall>out s'. (out, None, s') \<in> set (Read n s) \<longrightarrow>
           (\<exists>data rest. dataOut s = data # rest \<and> out = take n data
              \<and> readBuf s' = drop n data \<and> dataOut s' = rest))"
    using Read_chunk [of s _ _ n] by blast
  have c: "\<forall>out err s'. (out, err, s') \<in> set (Read n s) \<longrightarrow>
        out @ pending s' = pending s \<and> length out \<le> n
        \<and> (err = None \<or> (err = Some EOF \<and> out = [] \<and> s' = s))"
    using Read_in_order [of _ _ _ n s] by blast
  have d: "readBuf s = [] \<and> dataOut s = [] \<and> (dataOutClosed s \<or> closeCh s) \<longrightarrow>
        Read n s \<noteq> [] \<and> set (Read n s) = {([], Some EOF, s)}"
    using Read_eof [of s n] by blast
  have e: "readBuf s = [] \<longrightarrow>
        (\<forall>data rest. dataOut s = data # rest \<longrightarrow>
           Read n s =
             (take n data, None,
              if n < length data then s\<lparr>dataOut := rest, readBuf := drop n data\<rparr>
              else s\<lparr>dataOut := rest\<rparr>)
             # (if closeCh s then [([], Some EOF, s)] else []))"
    using Read_dequeues [of s _ _ n] by blast
  have f: "readBuf s = [] \<and> dataOut s = [] \<and> \<not> dataOutClosed s \<and> \<not> closeCh s \<longrightarrow> Read n s = []"
    by (simp add: Read_def)
  have g: "\<not> closeCh s \<and> 0 < n \<and> backlog s < k \<longrightarrow>
        reads n k s = (pending s, s\<lparr>dataOut := [], readBuf := []\<rparr>)"
    using reads_drains [of s n k] by blast
  show ?thesis by (intro conjI a b c d e f g)
qed

theorem Read_contract_witness:
  "Read 3 sampleStream
     = [(''hel'', None, sampleStream\<lparr>dataOut := [''world''], readBuf := ''lo''\<rparr>)]
   \<and> Read 3 (sampleStream\<lparr>dataOut := [''world''], readBuf := ''lo''\<rparr>)
       = [(''lo'', None, sampleStream\<lparr>dataOut := [''world''], readBuf := []\<rparr>)]
   \<and> set (Read 3 (sampleStream\<lparr>dataOut := [], closeCh := True, dataOutClosed := True\<rparr>))
       = {([], Some EOF, sampleStream\<lparr>dataOut := [], closeCh := True, dataOutClosed := True\<rparr>)}
   \<and> reads 3 13 sampleStream = (''helloworld'', sampleStream\<lparr>dataOut := [], readBuf := []\<rparr>)"
proof -
  note t = Read_contract [where n = 3 and k = 13]
  have a: "Read 3 (sampleStream\<lparr>dataOut := [''world''], readBuf := ''lo''\<rparr>)
       = [(''lo'', None, sampleStream\<lparr>dataOut := [''world''], readBuf := []\<rparr>)]"
    using t [where s = "sampleStream\<lparr>dataOut := [''world''], readBuf := ''lo''\<rparr>",
        THEN conjunct1]
    by simp
  have b: "set (Read 3 (sampleStream\<lparr>dataOut := [], closeCh := True, dataOutClosed := True\<rparr>))
       = {([], Some EOF, sampleStream\<lparr>dataOut := [], closeCh := True, dataOutClosed := True\<rparr>)}"
    using t [where s = "sampleStream\<lparr>dataOut := [], closeCh := True, dataOutClosed := True\<rparr>",
        THEN conjunct2, THEN conjunct2, THEN conjunct2, THEN conjunct1]
    by (simp add: sampleStream_def newStream_def)
  have c: "Read 3 sampleStream
       = [(''hel'', None, sampleStream\<lparr>dataOut := [''world''], readBuf := ''lo''\<rparr>)]"
    using t [where s = sampleStream,
        THEN conjunct2, THEN conjunct2, THEN conjunct2, THEN conjunct2, THEN conjunct1]
    by (simp add: sampleStream_def newStream_def)
  have d: "reads 3 13 sampleStream = (''helloworld'', sampleStream\<lparr>dataOut := [], readBuf := []\<rparr>)"
    using t [where s = sampleStream,
        THEN conjunct2, THEN conjunct2, THEN conjunct2, THEN conjunct2, THEN conjunct2,
        THEN conjunct2]
    by (simp add: sampleStream_def newStream_def backlog_def pending_def)
  show ?thesis by (intro conjI c a b d)
qed

subsection \<open>The life of a forwarded stream\<close>

text \<open>
  C1, as the code has it. In a state that satisfies the registry invariant, with the closed
  callback of \<^verbatim>\<open>main\<close> installed: an \<^verbatim>\<open>OpenStream\<close> frame whose id is already
  registered is rejected with an error, changes nothing and starts no forwarder task; one whose
  id is free registers the stream and starts one task. Whenever the task runs it returns, and
  the frames it adds to the outbound queue are among the frames of its reply (a data frame and a
  \<open>Data|EndStream\<close> frame with empty payload after a successful forward, a \<open>Data|Error\<close>
  frame with the error text after a failed one). It adds the whole reply, whose only terminating
  frame is the last one, when the connector is connected and the queue has room for it; it adds
  nothing when the connector is not connected; it never adds more than one terminating frame.
  Afterwards the id is not registered, and the closed callback has run once if the id was still
  registered when the task closed it and not at all otherwise.
\<close>

theorem open_stream_contract:
  assumes "registry_wf w" "onStreamClosed (sm w) = Some main_onStreamClosed"
  shows "(Type frame = FrameOpenStream \<longrightarrow>
           (case streams (sm w) (StreamID frame) of
              Some r \<Rightarrow>
                handleStreamFrame frame w =
                  [HReturn (Some (Errorw ''failed to create stream: '' ErrStreamAlreadyExists))
                     w None]
            | None \<Rightarrow>
                (\<exists>w'. handleStreamFrame frame w = [HReturn None w' (Some frame)]
                   \<and> streams (sm w') (StreamID frame) \<noteq> None \<and> registry_wf w'
                   \<and> conn w' = conn w \<and> onStreamClosed (sm w') = onStreamClosed (sm w))))
       \<and> (\<exists>w' new. forwardTask frame res w = Returns w'
             \<and> sendCh (conn w') = sendCh (conn w) @ new
             \<and> set new \<subseteq> set (replyFrames (StreamID frame) res)
             \<and> (connected (conn w) \<and> length (sendCh (conn w)) + 2 \<le> sendCh_cap \<longrightarrow>
                  new = replyFrames (StreamID frame) res)
             \<and> (\<not> connected (conn w) \<longrightarrow> new = [])
             \<and> length (filter (isTerminating (StreamID frame)) new) \<le> 1
             \<and> streams (sm w') (StreamID frame) = None
             \<and> closedCalls (StreamID frame) (globals w')
                 = closedCalls (StreamID frame) (globals w)
                   + (if streams (sm w) (StreamID frame) = None then 0 else 1))
       \<and> filter (isTerminating (StreamID frame)) (replyFrames (StreamID frame) res)
           = [last (replyFrames (StreamID frame) res)]"
  using handle_open [OF assms(1), of frame] forwardTask_effect [OF assms, of frame res]
    replyFrames_terminator [of "StreamID frame" res]
  by blast

theorem open_stream_contract_witness:
  "registry_wf servingAgent \<and> onStreamClosed (sm servingAgent) = Some main_onStreamClosed
   \<and> (\<exists>w'. forwardTask openFrame7 (Inr ''HTTP/1.1 200 OK'') servingAgent = Returns w'
         \<and> sendCh (conn w') = replyFrames 7 (Inr ''HTTP/1.1 200 OK'')
         \<and> closedCalls 7 (globals w') = 1)"
proof -
  have cb: "onStreamClosed (sm servingAgent) = Some main_onStreamClosed"
    by (simp add: servingAgent_def connectedAgent_def newAgent_def CreateStream_def Let_def)
  have st: "StreamID openFrame7 = 7" "connected (conn servingAgent)"
    "sendCh (conn servingAgent) = []" "streams (sm servingAgent) 7 = Some 0"
    "closedCalls 7 (globals servingAgent) = 0"
    by (simp_all add: openFrame7_def servingAgent_def connectedAgent_def newAgent_def
        CreateStream_def Let_def idleConnector_def NewConnector_def callback_def closedCalls_def
        main_onStreamCreated_def IncrementStreamsActive_def IncrementStreamsTotal_def logger_def)
  show ?thesis
    using open_stream_contract [OF registry_wf_servingAgent cb,
        of openFrame7 "Inr ''HTTP/1.1 200 OK''"] st cb registry_wf_servingAgent
    by (auto simp: sendCh_cap_def)
qed

text \<open>
  The claim as stated promises one terminating frame for every \<^verbatim>\<open>OpenStream\<close>. Stream 7
  is opened on a live connection; the transport is gone by the time the forward has succeeded:
  the task queues no frame at all, and the closed callback still runs once. And a second
  \<^verbatim>\<open>OpenStream\<close> for the id while the stream is registered starts nothing.
\<close>

theorem open_stream_counterexample:
  "handleStreamFrame openFrame7 connectedAgent = [HReturn None servingAgent (Some openFrame7)]
   \<and> (case forwardTask openFrame7 (Inr ''HTTP/1.1 200 OK'')
              (servingAgent\<lparr>conn := Disconnect (conn servingAgent)\<rparr>) of
         Panics \<Rightarrow> False
       | Returns w' \<Rightarrow>
           filter (isTerminating 7) (sendCh (conn w')) = [] \<and> closedCalls 7 (globals w') = 1)
   \<and> handleStreamFrame openFrame7 servingAgent =
       [HReturn (Some (Errorw ''failed to create stream: '' ErrStreamAlreadyExists))
          servingAgent None]"
  by (simp add: connectedAgent_def servingAgent_def newAgent_def idleConnector_def
      NewConnector_def CreateStream_def CloseStream_def callback_def Let_def openFrame7_def
      handleStreamFrame_def forwardTask_def send_def SendFrame_def sendCh_cap_def
      main_onStreamCreated_def main_onStreamClosed_def IncrementStreamsActive_def
      IncrementStreamsTotal_def IncrementStreamsCompleted_def DecrementStreamsActive_def
      logger_def zeroMetrics_def newStream_def Disconnect_def closedCalls_def)

subsection \<open>The stream counters\<close>

text \<open>
  C9 at a failing input. Stream 7 is opened on a fresh agent and its forward fails because the
  local service refuses the connection. The task counts the stream as failed, and the closed
  callback then counts the same stream as completed: afterwards total, completed and failed are
  all 1 and active is 0, which is not total minus completed minus failed.
\<close>

theorem failed_stream_counted_as_completed:
  "handleStreamFrame openFrame7 connectedAgent = [HReturn None servingAgent (Some openFrame7)]
   \<and> (case forwardTask openFrame7
              (Inl (Errorw ''local service error: '' (Foreign ''connection refused'' False)))
              servingAgent of
         Panics \<Rightarrow> False
       | Returns w' \<Rightarrow>
           metrics (globals w')
             = zeroMetrics\<lparr>StreamsTotal := 1, StreamsCompleted := 1, StreamsFailed := 1\<rparr>
           \<and> StreamsActive (metrics (globals w'))
               \<noteq> StreamsTotal (metrics (globals w')) - StreamsCompleted (metrics (globals w'))
                  - StreamsFailed (metrics (globals w')))"
  by (simp add: connectedAgent_def servingAgent_def newAgent_def idleConnector_def
      NewConnector_def CreateStream_def CloseStream_def callback_def Let_def openFrame7_def
      handleStreamFrame_def forwardTask_def send_def SendFrame_def sendCh_cap_def
      main_onStreamCreated_def main_onStreamClosed_def IncrementStreamsActive_def
      IncrementStreamsTotal_def IncrementStreamsCompleted_def DecrementStreamsActive_def
      IncrementStreamsFailed_def logger_def zeroMetrics_def newStream_def)

subsection \<open>Delivery racing with close\<close>

text \<open>
  C6 at a failing input. The dispatcher handles a data frame for stream 7: it has looked the
  stream up and holds reference 0. Before its select runs, the forwarder task closes stream 7.
  \<^verbatim>\<open>CloseStream\<close> has closed both channels of the object, so both branches of the select
  can proceed, and one of them is the send on the closed FIFO, which panics. With the earlier
  revision of \<^verbatim>\<open>CloseStream\<close>, which leaves the FIFO open, the same select can only queue
  the payload or see the close signal.
\<close>

theorem deliver_after_close_can_panic:
  "GetStream 7 servingAgent = Some 0
   \<and> (case CloseStream 7 servingAgent of
         Panics \<Rightarrow> False
       | Returns (e, w') \<Rightarrow>
           e = None \<and> GetStream 7 w' = None
           \<and> select_deliver ''body'' (heap w' 0) = [SendPanics, CloseSeen])
   \<and> (case CloseStream_legacy 7 servingAgent of
         Panics \<Rightarrow> False
       | Returns (e, w') \<Rightarrow>
           e = None \<and> GetStream 7 w' = None
           \<and> select_deliver ''body'' (heap w' 0)
               = [Sent ((heap w' 0)\<lparr>dataOut := [''body'']\<rparr>), CloseSeen])"
  by (simp add: connectedAgent_def servingAgent_def newAgent_def CreateStream_def
      CloseStream_def CloseStream_legacy_def callback_def Let_def GetStream_def
      select_deliver_def dataOut_cap_def newStream_def)

subsection \<open>The read loop of the dispatcher\<close>
















subsection \<open>Start after Stop\<close>






subsection \<open>Connecting with retry\<close>

lemma connectLoop_fail_step':
  assumes "\<not> ctxDone c" "maxRetries c \<le> 0 \<or> r < maxRetries c"
  shows "connectLoop c (spec_backoff c k) r (int k) (DialFail e False # evs) ws =
           connectLoop c (spec_backoff c (Suc k)) (r + 1) (int k + 1) evs
             (ws @ [spec_wait c (Suc k)])"
  using assms
  by (auto simp: Let_def maxConsecutiveErrors_def wait_after_def spec_wait_def min_def)

lemma connectLoop_fail_step:
  assumes "\<not> ctxDone c" "maxRetries c \<le> 0 \<or> r < maxRetries c"
  shows "connectLoop c (spec_backoff c k) r (int k) (DialFail e False # evs) ws =
           connectLoop c (spec_backoff c (Suc k)) (r + 1) (int (Suc k)) evs
             (ws @ [spec_wait c (Suc k)])"
proof -
  have "int (Suc k) = int k + 1" by simp
  then show ?thesis using connectLoop_fail_step' [OF assms] by metis
qed

lemma connectLoop_failures:
  assumes "\<not> ctxDone c" "maxRetries c \<le> 0 \<or> r + int (length es) \<le> maxRetries c"
  shows "connectLoop c (spec_backoff c k) r (int k) (dialFails es @ rest) ws =
           connectLoop c (spec_backoff c (k + length es)) (r + int (length es))
             (int (k + length es)) rest (ws @ spec_waits c k (length es))"
  using assms
proof (induction es arbitrary: k r ws)
  case Nil
  then show ?case by (simp add: dialFails_def)
next
  case (Cons e es)
  have step: "connectLoop c (spec_backoff c k) r (int k) (DialFail e False # (dialFails es @ rest)) ws =
           connectLoop c (spec_backoff c (Suc k)) (r + 1) (int (Suc k)) (dialFails es @ rest)
             (ws @ [spec_wait c (Suc k)])"
  proof (rule connectLoop_fail_step)
    show "\<not> ctxDone c" using Cons.prems by simp
    show "maxRetries c \<le> 0 \<or> r < maxRetries c" using Cons.prems by auto
  qed
  have ih: "connectLoop c (spec_backoff c (Suc k)) (r + 1) (int (Suc k)) (dialFails es @ rest)
             (ws @ [spec_wait c (Suc k)])
          = connectLoop c (spec_backoff c (Suc k + length es)) (r + 1 + int (length es))
             (int (Suc k + length es)) rest
             ((ws @ [spec_wait c (Suc k)]) @ spec_waits c (Suc k) (length es))"
    using Cons.prems by (intro Cons.IH) auto
  have "connectLoop c (spec_backoff c k) r (int k) (dialFails (e # es) @ rest) ws
        = connectLoop c (spec_backoff c k) r (int k) (DialFail e False # (dialFails es @ rest)) ws"
    by (simp add: dialFails_def)
  also note step
  also note ih
  finally have "connectLoop c (spec_backoff c k) r (int k) (dialFails (e # es) @ rest) ws
      = connectLoop c (spec_backoff c (Suc k + length es)) (r + 1 + int (length es))
             (int (Suc k + length es)) rest
             ((ws @ [spec_wait c (Suc k)]) @ spec_waits c (Suc k) (length es))" .
  moreover have "k + length (e # es) = Suc k + length es" by simp
  moreover have "r + int (length (e # es)) = r + 1 + int (length es)" by simp
  moreover have "ws @ spec_waits c k (length (e # es))
        = (ws @ [spec_wait c (Suc k)]) @ spec_waits c (Suc k) (length es)" by simp
  ultimately show ?case by metis
qed

lemma spec_waits_nth:
  "length (spec_waits c k n) = n \<and> (\<forall>j < n. spec_waits c k n ! j = spec_wait c (Suc (k + j)))"
proof (induction n arbitrary: k)
  case 0
  then show ?case by simp
next
  case (Suc n)
  then show ?case by (auto simp: nth_Cons split: nat.splits)
qed

lemma connectLoop_errors:
  assumes "fst (connectLoop c b r ce evs ws) = ConnErr err" "maxRetries c \<le> 0 \<or> r \<le> maxRetries c"
  shows "(err = Canceled \<and> (ctxDone c \<or> CtxDone \<in> set evs \<or> (\<exists>e. DialFail e True \<in> set evs)))
       \<or> (0 < maxRetries c
           \<and> (\<exists>e. err = Errorw (''max retries exceeded after '' @ show_int (maxRetries c)
                                   @ '' attempts: '') e)
           \<and> int (length (filter (\<lambda>ev. \<exists>e b. ev = DialFail e b) evs)) > maxRetries c - r)"
  using assms
proof (induction evs arbitrary: b r ce ws)
  case Nil
  then show ?case by (simp split: if_splits)
next
  case (Cons ev evs)
  show ?case
  proof (cases ev)
    case CtxDone
    then show ?thesis using Cons.prems by (simp split: if_splits)
  next
    case DialOk
    then show ?thesis using Cons.prems by (simp split: if_splits)
  next
    case (DialFail e cancelled)
    show ?thesis
    proof (cases "ctxDone c \<or> (maxRetries c > 0 \<and> r \<ge> maxRetries c) \<or> cancelled")
      case True
      then show ?thesis using Cons.prems DialFail
        by (auto simp: Let_def split: if_splits)
    next
      case False
      define b' where "b' = (if ce + 1 \<ge> maxConsecutiveErrors
                     then (let b0 = truncate (of_int b * backoffFactor c * (3 / 2))
                           in if b0 > maxBackoff c * 2 then maxBackoff c * 2 else b0)
                     else b)"
      have eq: "connectLoop c b r ce (ev # evs) ws =
          connectLoop c (let b0 = scale b' (backoffFactor c)
                         in if b0 > maxBackoff c then maxBackoff c else b0)
                        (r + 1) (ce + 1) evs (ws @ [b'])"
        using False DialFail by (auto simp: Let_def b'_def)
      have pre: "maxRetries c \<le> 0 \<or> r + 1 \<le> maxRetries c" using False Cons.prems(2) by auto
      from Cons.IH [OF _ pre] Cons.prems(1) eq
      have "(err = Canceled \<and> (ctxDone c \<or> CtxDone \<in> set evs \<or> (\<exists>e. DialFail e True \<in> set evs)))
       \<or> (0 < maxRetries c
           \<and> (\<exists>e. err = Errorw (''max retries exceeded after '' @ show_int (maxRetries c)
                                   @ '' attempts: '') e)
           \<and> int (length (filter (\<lambda>ev. \<exists>e b. ev = DialFail e b) evs)) > maxRetries c - (r + 1))"
        by simp
      then show ?thesis using DialFail by auto
    qed
  qed
qed

lemma spec_wait_first: "spec_wait c 1 = retryInterval c"
  by (simp add: spec_wait_def wait_after_def)

lemma spec_wait_early:
  assumes "1 \<le> k" "k < 4"
  shows "spec_wait c (Suc k) = min (scale (spec_wait c k) (backoffFactor c)) (maxBackoff c)"
proof -
  obtain j where k: "k = Suc j" using assms(1) by (cases k) auto
  show ?thesis using assms(2) by (simp add: k spec_wait_def wait_after_def)
qed

lemma spec_wait_late:
  assumes "4 \<le> k"
  shows "spec_wait c (Suc k) =
           min (truncate (of_int (min (scale (spec_wait c k) (backoffFactor c)) (maxBackoff c))
                          * backoffFactor c * (3 / 2)))
               (maxBackoff c * 2)"
proof -
  obtain j where k: "k = Suc j" using assms by (cases k) auto
  show ?thesis using assms by (simp add: k spec_wait_def wait_after_def)
qed

lemma connect_ok_after_failures:
  assumes "\<not> ctxDone c" "maxRetries c \<le> 0 \<or> int (length es) \<le> maxRetries c"
  shows "connectWithRetry c (dialFails es @ DialOk # rest)
           = (ConnOk, spec_waits c 0 (length es), c\<lparr>connected := True\<rparr>)"
proof -
  have "connectLoop c (spec_backoff c 0) 0 (int 0) (dialFails es @ DialOk # rest) []
      = connectLoop c (spec_backoff c (0 + length es)) (0 + int (length es))
             (int (0 + length es)) (DialOk # rest) ([] @ spec_waits c 0 (length es))"
    using assms by (intro connectLoop_failures) auto
  then show ?thesis using assms(1) by (simp add: connectWithRetry_def)
qed

lemma connect_exhausted:
  assumes "\<not> ctxDone c" "0 < maxRetries c" "int (length es) = maxRetries c"
  shows "connectWithRetry c (dialFails es @ DialFail e cancelled # rest)
           = (ConnErr (Errorw (''max retries exceeded after '' @ show_int (maxRetries c)
                               @ '' attempts: '') e),
              spec_waits c 0 (length es), c)"
proof -
  have "connectLoop c (spec_backoff c 0) 0 (int 0) (dialFails es @ DialFail e cancelled # rest) []
      = connectLoop c (spec_backoff c (0 + length es)) (0 + int (length es))
             (int (0 + length es)) (DialFail e cancelled # rest) ([] @ spec_waits c 0 (length es))"
    using assms by (intro connectLoop_failures) auto
  then show ?thesis using assms by (simp add: connectWithRetry_def Let_def)
qed

lemma connect_errors:
  assumes "fst (connectWithRetry c evs) = ConnErr err"
  shows "(err = Canceled \<and> (ctxDone c \<or> CtxDone \<in> set evs \<or> (\<exists>e. DialFail e True \<in> set evs)))
       \<or> (0 < maxRetries c
           \<and> (\<exists>e. err = Errorw (''max retries exceeded after '' @ show_int (maxRetries c)
                                   @ '' attempts: '') e)
           \<and> int (length (filter (\<lambda>ev. \<exists>e b. ev = DialFail e b) evs)) > maxRetries c)"
proof -
  have "fst (connectLoop c (retryInterval c) 0 0 evs []) = ConnErr err"
    using assms by (simp add: connectWithRetry_def case_prod_beta)
  moreover have "maxRetries c \<le> 0 \<or> 0 \<le> maxRetries c" by linarith
  ultimately show ?thesis using connectLoop_errors [of c "retryInterval c" 0 0 evs "[]" err]
    by simp
qed

lemma default_waits:
  "spec_waits NewConnector 0 5 = [1 * second, 2 * second, 4 * second, 8 * second, 48 * second]"
  by (simp add: numeral_eq_Suc spec_wait_def wait_after_def NewConnector_def second_def scale_def
      truncate_def)

text \<open>
  C2, as the code has it. With the connector's context live: when the dials fail \<open>n\<close> times
  in a row, each failure followed by a full wait, and the next dial succeeds, \<^verbatim>\<open>connect\<close>
  returns no error and marks the connector connected, provided \<open>max_retries\<close> is not positive
  or \<open>n\<close> does not exceed it; the waits are those of the schedule: the first is the retry
  interval, each of the next three is the previous wait times the backoff factor capped at the
  maximal backoff, and from the fifth failure on the wait is that capped product times the
  factor times 1.5, capped at twice the maximal backoff. Every call starts the schedule afresh.
  With a positive \<open>max_retries\<close>, the failure after \<open>max_retries\<close> failed attempts (the
  attempt number \<open>max_retries + 1\<close>) makes \<^verbatim>\<open>connect\<close> return the "max retries exceeded"
  error. \<^verbatim>\<open>connect\<close> returns an error only when the context is cancelled (before the call,
  at the top of the loop or during a wait), or with a positive \<open>max_retries\<close> after more than
  that many failed dials.
\<close>

theorem connect_retry_contract:
  assumes "\<not> ctxDone c"
  shows "(maxRetries c \<le> 0 \<or> int (length es) \<le> maxRetries c \<longrightarrow>
            connectWithRetry c (dialFails es @ DialOk # rest)
              = (ConnOk, spec_waits c 0 (length es), c\<lparr>connected := True\<rparr>))
       \<and> (0 < maxRetries c \<and> int (length es) = maxRetries c \<longrightarrow>
            connectWithRetry c (dialFails es @ DialFail e cancelled # rest)
              = (ConnErr (Errorw (''max retries exceeded after '' @ show_int (maxRetries c)
                                  @ '' attempts: '') e),
                 spec_waits c 0 (length es), c))
       \<and> (\<forall>err. fst (connectWithRetry c evs) = ConnErr err \<longrightarrow>
            (err = Canceled \<and> (CtxDone \<in> set evs \<or> (\<exists>e. DialFail e True \<in> set evs)))
            \<or> (0 < maxRetries c
                \<and> (\<exists>e. err = Errorw (''max retries exceeded after '' @ show_int (maxRetries c)
                                        @ '' attempts: '') e)
                \<and> int (length (filter (\<lambda>ev. \<exists>e b. ev = DialFail e b) evs)) > maxRetries c))
       \<and> length (spec_waits c 0 n) = n
       \<and> (\<forall>j < n. spec_waits c 0 n ! j = spec_wait c (Suc j))
       \<and> spec_wait c 1 = retryInterval c
       \<and> (\<forall>k. 1 \<le> k \<and> k < 4 \<longrightarrow>
            spec_wait c (Suc k) = min (scale (spec_wait c k) (backoffFactor c)) (maxBackoff c))
       \<and> (\<forall>k. 4 \<le> k \<longrightarrow>
            spec_wait c (Suc k) =
              min (truncate (of_int (min (scale (spec_wait c k) (backoffFactor c)) (maxBackoff c))
                             * backoffFactor c * (3 / 2)))
                  (maxBackoff c * 2))"
proof -
  have a: "maxRetries c \<le> 0 \<or> int (length es) \<le> maxRetries c \<longrightarrow>
            connectWithRetry c (dialFails es @ DialOk # rest)
              = (ConnOk, spec_waits c 0 (length es), c\<lparr>connected := True\<rparr>)"
    using connect_ok_after_failures [OF assms] by blast
  have b: "0 < maxRetries c \<and> int (length es) = maxRetries c \<longrightarrow>
            connectWithRetry c (dialFails es @ DialFail e cancelled # rest)
              = (ConnErr (Errorw (''max retries exceeded after '' @ show_int (maxRetries c)
                                  @ '' attempts: '') e),
                 spec_waits c 0 (length es), c)"
    using connect_exhausted [OF assms] by blast
  have c: "\<forall>err. fst (connectWithRetry c evs) = ConnErr err \<longrightarrow>
            (err = Canceled \<and> (CtxDone \<in> set evs \<or> (\<exists>e. DialFail e True \<in> set evs)))
            \<or> (0 < maxRetries c
                \<and> (\<exists>e. err = Errorw (''max retries exceeded after '' @ show_int (maxRetries c)
                                        @ '' attempts: '') e)
                \<and> int (length (filter (\<lambda>ev. \<exists>e b. ev = DialFail e b) evs)) > maxRetries c)"
    using connect_errors [of c evs] assms by blast
  have d: "length (spec_waits c 0 n) = n
           \<and> (\<forall>j < n. spec_waits c 0 n ! j = spec_wait c (Suc j))"
    using spec_waits_nth [of c 0 n] by simp
  show ?thesis
    using a b c d spec_wait_first [of c] spec_wait_early [of _ c] spec_wait_late [of _ c]
    by blast
qed

theorem connect_retry_contract_witness:
  "\<not> ctxDone NewConnector
   \<and> connectWithRetry NewConnector
       (dialFails [dialRefused, dialRefused, dialRefused, dialRefused, dialRefused] @ [DialOk])
     = (ConnOk, [1 * second, 2 * second, 4 * second, 8 * second, 48 * second],
        NewConnector\<lparr>connected := True\<rparr>)"
proof -
  have live: "\<not> ctxDone NewConnector" by (simp add: NewConnector_def)
  have unlimited: "maxRetries NewConnector \<le> 0" by (simp add: NewConnector_def)
  have five: "length [dialRefused, dialRefused, dialRefused, dialRefused, dialRefused] = 5"
    by simp
  show ?thesis
    using connect_retry_contract [OF live,
        of "[dialRefused, dialRefused, dialRefused, dialRefused, dialRefused]" "[]"]
      live unlimited default_waits
    unfolding five by simp
qed

text \<open>
  The claim as stated lets \<^verbatim>\<open>connect\<close> fail after \<open>max_retries\<close> consecutive failures, and
  adds a multiplier of 1.5 at the fifth failure. With \<open>max_retries = 1\<close>, one failed dial
  followed by a successful one connects. With the defaults (interval 1 s, factor 2, maximum
  60 s) the waits after five failures are 1, 2, 4, 8 and 48 seconds: the fifth is the backoff
  of 16 s times 2 times 1.5, not 16 s times 1.5.
\<close>

theorem connect_retry_counterexample:
  "connectWithRetry (NewConnector\<lparr>maxRetries := 1\<rparr>) [DialFail dialRefused False, DialOk]
     = (ConnOk, [1 * second], NewConnector\<lparr>maxRetries := 1, connected := True\<rparr>)
   \<and> fst (snd (connectWithRetry NewConnector
        [DialFail dialRefused False, DialFail dialRefused False, DialFail dialRefused False,
         DialFail dialRefused False, DialFail dialRefused False, DialOk]))
     = [1 * second, 2 * second, 4 * second, 8 * second, 48 * second]"
  by (simp add: connectWithRetry_def NewConnector_def second_def maxConsecutiveErrors_def
      scale_def truncate_def Let_def)


end
